theory Spec2Isabelle
  imports Complex_Main "HOL-Library.AList" "HOL-Library.Multiset"
begin

section \<open>The time-slot analysis engine of the email send-time optimizer\<close>

text \<open>
  A shallow embedding of \<^verbatim>\<open>src/utils/analysisEngine.ts\<close> (with \<^verbatim>\<open>formatTimeLabel\<close>
  from \<^verbatim>\<open>src/utils/validation.ts\<close> and the interfaces of \<^verbatim>\<open>src/types\<close>).

  Conventions of the embedding:
  \<^item> a JavaScript \<^verbatim>\<open>number\<close> that holds a rate or a score is a \<^typ>\<open>real\<close>: the
    arithmetic is the exact one, rounding of IEEE doubles is not modelled;
  \<^item> \<^verbatim>\<open>hourOfDay\<close> of an input record is an \<^typ>\<open>int\<close> (it is read from
    \<^verbatim>\<open>Date.getHours\<close>); \<^verbatim>\<open>hourOfDay\<close> of a time slot is an \<^typ>\<open>int option\<close>, where
    \<open>None\<close> is \<^verbatim>\<open>NaN\<close>, since the historical path recomputes it with \<^verbatim>\<open>parseInt\<close>;
  \<^item> a \<^verbatim>\<open>Date\<close> is its \<^verbatim>\<open>getTime()\<close> value, an \<^typ>\<open>int\<close> of milliseconds;
  \<^item> \<^verbatim>\<open>new Date()\<close> reads the clock: every function that reads it takes \<open>clk\<close>, where
    \<open>clk i\<close> is the value of the \<open>i\<close>-th reading made during the invocation;
  \<^item> a thrown \<^verbatim>\<open>Error(msg)\<close> is the value \<open>Inl (Error msg)\<close>;
  \<^item> a call that spreads an array into its arguments, \<^verbatim>\<open>Math.min(...dates)\<close>, throws a
    \<^verbatim>\<open>RangeError\<close> when the array is longer than the engine accepts: every function that
    makes such a call takes \<open>max_args\<close>, the number of arguments the engine accepts, and
    the thrown error is the value \<open>Inl RangeError\<close> (its message is the engine's own);
  \<^item> a JavaScript \<^verbatim>\<open>Map\<close> is an association list in insertion order; \<^verbatim>\<open>Map.set\<close> is
    \<^const>\<open>AList.update\<close> (overwrite in place, else append) and \<^verbatim>\<open>Map.get\<close> is \<^const>\<open>map_of\<close>.
\<close>

subsection \<open>Data model (\<^verbatim>\<open>src/types\<close>)\<close>

datatype error = Error string | RangeError

record ProcessedEmailData =
  businessUnit :: string
  organizationType :: string
  campaignType :: string
  sendDate :: int
  sendTime :: string
  dayOfWeek :: string
  hourOfDay :: int
  openRate :: real
  clickRate :: real
  unsubscribeRate :: real
  bounceRate :: real

record FilterOptions =
  fo_businessUnit :: string
  fo_organizationType :: string
  fo_campaignType :: string
  fo_timezone :: "string option"

record TimeSlotAnalysis =
  ts_dayOfWeek :: string
  ts_hourOfDay :: "int option"
  timeLabel :: string
  avgOpenRate :: real
  avgClickRate :: real
  sampleSize :: nat
  score :: real

record DateRange =
  range_start :: int
  range_end :: int

record Metadata =
  totalRecords :: nat
  dateRange :: DateRange
  filters :: FilterOptions
  analysisType :: string
  timestamp :: int

record AnalysisResult =
  primary :: TimeSlotAnalysis
  secondary :: TimeSlotAnalysis
  tertiary :: TimeSlotAnalysis
  allTimeSlots :: "TimeSlotAnalysis list"
  metadata :: Metadata

record BestPractice =
  bp_dayOfWeek :: string
  bp_hourOfDay :: int
  bp_timeLabel :: string
  bp_score :: real
  reasoning :: string

subsection \<open>Numbers and strings: template literals, \<^verbatim>\<open>split\<close>, \<^verbatim>\<open>parseInt\<close>\<close>

text \<open>The decimal digit of a number below ten.\<close>

definition digit_char :: "nat \<Rightarrow> char" where
  "digit_char n = ''0123456789'' ! (n mod 10)"

fun nat_toString :: "nat \<Rightarrow> string" where
  "nat_toString n =
     (if n < 10 then [digit_char n] else nat_toString (n div 10) @ [digit_char (n mod 10)])"

declare nat_toString.simps [simp del]

text \<open>\<^verbatim>\<open>String(n)\<close> for an integral number: decimal digits, with a leading minus sign.\<close>

definition int_toString :: "int \<Rightarrow> string" where
  "int_toString n = (if n < 0 then CHR ''-'' # nat_toString (nat (- n)) else nat_toString (nat n))"

text \<open>\<^verbatim>\<open>String(n)\<close> for a number that may be \<^verbatim>\<open>NaN\<close>.\<close>

definition number_toString :: "int option \<Rightarrow> string" where
  "number_toString n = (case n of None \<Rightarrow> ''NaN'' | Some i \<Rightarrow> int_toString i)"

text \<open>\<^verbatim>\<open>s.split(c)\<close> for a one-character separator: never the empty array.\<close>

fun split_on :: "char \<Rightarrow> string \<Rightarrow> string list" where
  "split_on c [] = [[]]"
| "split_on c (x # xs) =
     (if x = c then [] # split_on c xs
      else (case split_on c xs of [] \<Rightarrow> [[x]] | p # ps \<Rightarrow> (x # p) # ps))"

definition is_space :: "char \<Rightarrow> bool" where
  "is_space c = (c \<in> set [CHR '' '', CHR 0x09, CHR 0x0A, CHR 0x0B, CHR 0x0C, CHR 0x0D])"

text \<open>The value of a digit in a radix up to 16; letters count in either case.\<close>

definition digit_table :: "(char \<times> nat) list" where
  "digit_table = zip ''0123456789abcdefABCDEF''
                     [0, 1, 2, 3, 4, 5, 6, 7, 8, 9, 10, 11, 12, 13, 14, 15, 10, 11, 12, 13, 14, 15]"

definition digit_val :: "nat \<Rightarrow> char \<Rightarrow> nat option" where
  "digit_val radix c =
     (case map_of digit_table c of
        None \<Rightarrow> None
      | Some d \<Rightarrow> if d < radix then Some d else None)"

text \<open>
  \<^verbatim>\<open>parseInt(s)\<close> without a radix: leading (ASCII) white space is skipped, then an optional sign,
  then an optional \<^verbatim>\<open>0x\<close> prefix selecting radix 16; the longest prefix of digits is read,
  and the result is \<^verbatim>\<open>NaN\<close> when there is none.
\<close>

definition parseInt :: "string \<Rightarrow> int option" where
  "parseInt s =
     (let s1 = dropWhile is_space s;
          neg = (case s1 of [] \<Rightarrow> False | c # _ \<Rightarrow> c = CHR ''-'');
          s2 = (case s1 of [] \<Rightarrow> [] | c # cs \<Rightarrow> if c = CHR ''-'' \<or> c = CHR ''+'' then cs else s1);
          hex = (case s2 of c # x # _ \<Rightarrow> c = CHR ''0'' \<and> (x = CHR ''x'' \<or> x = CHR ''X'') | _ \<Rightarrow> False);
          radix = (if hex then 16 else 10);
          s3 = (if hex then drop 2 s2 else s2);
          ds = takeWhile (\<lambda>c. digit_val radix c \<noteq> None) s3;
          v = fold (\<lambda>c acc. acc * radix + (case digit_val radix c of None \<Rightarrow> 0 | Some d \<Rightarrow> d)) ds 0
      in if ds = [] then None else Some (if neg then - int v else int v))"

text \<open>\<^verbatim>\<open>formatTimeLabel\<close> of \<^verbatim>\<open>validation.ts\<close>; every comparison with \<^verbatim>\<open>NaN\<close> is false.\<close>

definition formatTimeLabel :: "int option \<Rightarrow> string" where
  "formatTimeLabel hour =
     (let period = (case hour of None \<Rightarrow> ''AM'' | Some h \<Rightarrow> if h \<ge> 12 then ''PM'' else ''AM'');
          displayHour = (case hour of None \<Rightarrow> None
                         | Some h \<Rightarrow> Some (if h = 0 then 12 else if h > 12 then h - 12 else h))
      in number_toString displayHour @ '':00 '' @ period)"

subsection \<open>\<^verbatim>\<open>Array.prototype.sort\<close> with a comparator\<close>

text \<open>
  The sort of the language is stable. It is modelled as the stable insertion sort: an
  element goes before the first element that the comparator does not place before it.
\<close>

fun insert_by :: "('a \<Rightarrow> 'a \<Rightarrow> real) \<Rightarrow> 'a \<Rightarrow> 'a list \<Rightarrow> 'a list" where
  "insert_by cmp x [] = [x]"
| "insert_by cmp x (y # ys) = (if cmp x y \<le> 0 then x # y # ys else y # insert_by cmp x ys)"

definition Array_sort :: "('a \<Rightarrow> 'a \<Rightarrow> real) \<Rightarrow> 'a list \<Rightarrow> 'a list" where
  "Array_sort cmp xs = foldr (insert_by cmp) xs []"

text \<open>The comparator \<^verbatim>\<open>(a, b) => b.score - a.score\<close>.\<close>

definition by_score_desc :: "TimeSlotAnalysis \<Rightarrow> TimeSlotAnalysis \<Rightarrow> real" where
  "by_score_desc a b = score b - score a"

subsection \<open>The best-practices table and \<^verbatim>\<open>analyzeBestPractices\<close>\<close>

definition BEST_PRACTICES :: "BestPractice list" where
  "BEST_PRACTICES =
     [\<lparr>bp_dayOfWeek = ''Tuesday'', bp_hourOfDay = 10, bp_timeLabel = ''10:00 AM'', bp_score = 95,
       reasoning = ''Peak engagement time - people are settled into work and checking emails''\<rparr>,
      \<lparr>bp_dayOfWeek = ''Thursday'', bp_hourOfDay = 14, bp_timeLabel = ''2:00 PM'', bp_score = 90,
       reasoning = ''Post-lunch period with high email activity''\<rparr>,
      \<lparr>bp_dayOfWeek = ''Wednesday'', bp_hourOfDay = 9, bp_timeLabel = ''9:00 AM'', bp_score = 85,
       reasoning = ''Mid-week morning when inboxes are being cleared''\<rparr>,
      \<lparr>bp_dayOfWeek = ''Tuesday'', bp_hourOfDay = 14, bp_timeLabel = ''2:00 PM'', bp_score = 82,
       reasoning = ''Strong afternoon engagement on Tuesday''\<rparr>,
      \<lparr>bp_dayOfWeek = ''Thursday'', bp_hourOfDay = 10, bp_timeLabel = ''10:00 AM'', bp_score = 80,
       reasoning = ''Late-week morning with good open rates''\<rparr>]"

definition bestPracticeSlot :: "BestPractice \<Rightarrow> TimeSlotAnalysis" where
  "bestPracticeSlot bp =
     \<lparr>ts_dayOfWeek = bp_dayOfWeek bp,
      ts_hourOfDay = Some (bp_hourOfDay bp),
      timeLabel = bp_timeLabel bp,
      avgOpenRate = bp_score bp,
      avgClickRate = bp_score bp * 0.3,
      sampleSize = 0,
      score = bp_score bp\<rparr>"

text \<open>
  The three reads \<^verbatim>\<open>allTimeSlots[0..2]\<close> have no fallback in the source; the table has
  five rows, so they are in range.
\<close>

definition analyzeBestPractices :: "(nat \<Rightarrow> int) \<Rightarrow> AnalysisResult" where
  "analyzeBestPractices clk =
     (let slots = map bestPracticeSlot BEST_PRACTICES
      in \<lparr>primary = slots ! 0,
          secondary = slots ! 1,
          tertiary = slots ! 2,
          allTimeSlots = slots,
          metadata =
            \<lparr>totalRecords = 0,
             dateRange = \<lparr>range_start = clk 0, range_end = clk 1\<rparr>,
             filters = \<lparr>fo_businessUnit = ''All'', fo_organizationType = ''All'',
                        fo_campaignType = ''All'', fo_timezone = None\<rparr>,
             analysisType = ''best-practices'',
             timestamp = clk 2\<rparr>\<rparr>)"

subsection \<open>\<^verbatim>\<open>createEmptyTimeSlot\<close> and the \<^verbatim>\<open>xs[i] || createEmptyTimeSlot()\<close> reads\<close>

definition createEmptyTimeSlot :: TimeSlotAnalysis where
  "createEmptyTimeSlot =
     \<lparr>ts_dayOfWeek = ''N/A'', ts_hourOfDay = Some 0, timeLabel = ''N/A'',
      avgOpenRate = 0, avgClickRate = 0, sampleSize = 0, score = 0\<rparr>"

text \<open>An object is truthy, so the fallback is taken exactly when the index is out of range.\<close>

definition slot_or_empty :: "TimeSlotAnalysis list \<Rightarrow> nat \<Rightarrow> TimeSlotAnalysis" where
  "slot_or_empty xs i = (if i < length xs then xs ! i else createEmptyTimeSlot)"

subsection \<open>\<^verbatim>\<open>analyzeHistoricalData\<close>\<close>

definition record_key :: "ProcessedEmailData \<Rightarrow> string" where
  "record_key row = dayOfWeek row @ ''-'' @ int_toString (hourOfDay row)"

text \<open>
  One iteration of the grouping loop: create the entry when the key is new, then push the
  row onto the entry's array.
\<close>

definition group_step ::
  "ProcessedEmailData \<Rightarrow> (string \<times> ProcessedEmailData list) list
     \<Rightarrow> (string \<times> ProcessedEmailData list) list" where
  "group_step row m =
     (let key = record_key row;
          m1 = (if map_of m key = None then AList.update key [] m else m)
      in (case map_of m1 key of
            None \<Rightarrow> m1
          | Some records \<Rightarrow> AList.update key (records @ [row]) m1))"

text \<open>
  The destructuring \<^verbatim>\<open>[dayOfWeek, hourStr] = key.split("-")\<close> followed by
  \<^verbatim>\<open>parseInt(hourStr)\<close>: the first two parts are taken; a missing second part is
  \<^verbatim>\<open>undefined\<close>, which \<^verbatim>\<open>parseInt\<close> maps to \<^verbatim>\<open>NaN\<close>.
\<close>

definition split_key :: "string \<Rightarrow> string \<times> int option" where
  "split_key key =
     (let parts = split_on CHR ''-'' key
      in (case parts of [] \<Rightarrow> [] | d # _ \<Rightarrow> d,
          case parts of _ # hourStr # _ \<Rightarrow> parseInt hourStr | _ \<Rightarrow> None))"

text \<open>The body of the second loop, for one entry \<open>(key, records)\<close> of the map.\<close>

definition slot_of_entry :: "string \<times> ProcessedEmailData list \<Rightarrow> TimeSlotAnalysis" where
  "slot_of_entry e =
     (let key = fst e; records = snd e;
          day = fst (split_key key);
          hour = snd (split_key key);
          avgOpen = fold (\<lambda>r sum. sum + openRate r) records 0 / real (length records);
          avgClick = fold (\<lambda>r sum. sum + clickRate r) records 0 / real (length records)
      in \<lparr>ts_dayOfWeek = day,
          ts_hourOfDay = hour,
          timeLabel = formatTimeLabel hour,
          avgOpenRate = avgOpen,
          avgClickRate = avgClick,
          sampleSize = length records,
          score = avgOpen * 0.7 + avgClick * 0.3\<rparr>)"

text \<open>
  \<^verbatim>\<open>Math.min(...dates)\<close> and \<^verbatim>\<open>Math.max(...dates)\<close> for the non-empty array \<open>x # xs\<close>: one
  argument for every element. With more arguments than the engine accepts the call throws
  a \<^verbatim>\<open>RangeError\<close>; otherwise it returns the least (greatest) element.
\<close>

definition Math_min :: "nat \<Rightarrow> int \<Rightarrow> int list \<Rightarrow> error + int" where
  "Math_min max_args x xs = (if max_args < length (x # xs) then Inl RangeError else Inr (fold min xs x))"

definition Math_max :: "nat \<Rightarrow> int \<Rightarrow> int list \<Rightarrow> error + int" where
  "Math_max max_args x xs = (if max_args < length (x # xs) then Inl RangeError else Inr (fold max xs x))"

text \<open>
  The function groups and sorts first, then computes the date range; a \<^verbatim>\<open>RangeError\<close>
  of one of the two spread calls leaves the function before it returns.
\<close>

definition analyzeHistoricalData ::
  "ProcessedEmailData list \<Rightarrow> FilterOptions \<Rightarrow> (nat \<Rightarrow> int) \<Rightarrow> nat \<Rightarrow> error + AnalysisResult" where
  "analyzeHistoricalData data flt clk max_args =
     (case data of
        [] \<Rightarrow> Inl (Error ''No data available for analysis'')
      | row # rest \<Rightarrow>
          (let timeSlotMap = fold group_step data [];
               timeSlots = Array_sort by_score_desc (map slot_of_entry timeSlotMap)
           in (case Math_min max_args (sendDate row) (map sendDate rest) of
                 Inl e \<Rightarrow> Inl e
               | Inr minDate \<Rightarrow>
                   (case Math_max max_args (sendDate row) (map sendDate rest) of
                      Inl e \<Rightarrow> Inl e
                    | Inr maxDate \<Rightarrow>
                        Inr \<lparr>primary = slot_or_empty timeSlots 0,
                             secondary = slot_or_empty timeSlots 1,
                             tertiary = slot_or_empty timeSlots 2,
                             allTimeSlots = timeSlots,
                             metadata =
                               \<lparr>totalRecords = length data,
                                dateRange = \<lparr>range_start = minDate, range_end = maxDate\<rparr>,
                                filters = flt,
                                analysisType = ''historical'',
                                timestamp = clk 0\<rparr>\<rparr>))))"

subsection \<open>\<^verbatim>\<open>analyzeCombined\<close>\<close>

definition slot_key :: "TimeSlotAnalysis \<Rightarrow> string" where
  "slot_key slot = ts_dayOfWeek slot @ ''-'' @ number_toString (ts_hourOfDay slot)"

text \<open>First loop: every historical slot enters the map with its score scaled.\<close>

definition add_historical ::
  "TimeSlotAnalysis \<Rightarrow> (string \<times> TimeSlotAnalysis) list \<Rightarrow> (string \<times> TimeSlotAnalysis) list" where
  "add_historical slot m = AList.update (slot_key slot) (slot\<lparr>score := score slot * 0.6\<rparr>) m"

text \<open>
  Second loop: a best-practice slot is merged into the entry with its key (the entry is
  mutated where it sits), or appended with its score scaled and no samples.
\<close>

definition merge_best_practice ::
  "TimeSlotAnalysis \<Rightarrow> (string \<times> TimeSlotAnalysis) list \<Rightarrow> (string \<times> TimeSlotAnalysis) list" where
  "merge_best_practice slot m =
     (let key = slot_key slot
      in (case map_of m key of
            Some existing \<Rightarrow>
              AList.update key
                (existing\<lparr>score := score existing + score slot * 0.4,
                          avgOpenRate := avgOpenRate existing * 0.6 + avgOpenRate slot * 0.4,
                          avgClickRate := avgClickRate existing * 0.6 + avgClickRate slot * 0.4\<rparr>) m
          | None \<Rightarrow>
              AList.update key (slot\<lparr>score := score slot * 0.4, sampleSize := 0\<rparr>) m))"

text \<open>
  With data, the clock is read once by the historical analysis, three times by the
  best-practices analysis, and then once for the time stamp of the result. An error of
  the historical analysis is not caught.
\<close>

definition analyzeCombined ::
  "ProcessedEmailData list \<Rightarrow> FilterOptions \<Rightarrow> (nat \<Rightarrow> int) \<Rightarrow> nat \<Rightarrow> error + AnalysisResult" where
  "analyzeCombined data flt clk max_args =
     (if data = [] then Inr (analyzeBestPractices clk)
      else (case analyzeHistoricalData data flt clk max_args of
              Inl e \<Rightarrow> Inl e
            | Inr historical \<Rightarrow>
                (let bestPractices = analyzeBestPractices (\<lambda>i. clk (i + 1));
                     combinedMap0 = fold add_historical (allTimeSlots historical) [];
                     combinedMap = fold merge_best_practice (allTimeSlots bestPractices) combinedMap0;
                     slots = Array_sort by_score_desc (map snd combinedMap)
                 in Inr \<lparr>primary = slot_or_empty slots 0,
                         secondary = slot_or_empty slots 1,
                         tertiary = slot_or_empty slots 2,
                         allTimeSlots = slots,
                         metadata =
                           \<lparr>totalRecords = length data,
                            dateRange = dateRange (metadata historical),
                            filters = flt,
                            analysisType = ''combined'',
                            timestamp = clk 4\<rparr>\<rparr>)))"

subsection \<open>\<^verbatim>\<open>performAnalysis\<close>\<close>

text \<open>
  The type \<^verbatim>\<open>AnalysisType\<close> is erased at run time: the switch receives a string and has a
  default branch.
\<close>

definition performAnalysis ::
  "ProcessedEmailData list \<Rightarrow> string \<Rightarrow> FilterOptions \<Rightarrow> (nat \<Rightarrow> int) \<Rightarrow> nat \<Rightarrow> error + AnalysisResult" where
  "performAnalysis data type flt clk max_args =
     (if type = ''best-practices'' then Inr (analyzeBestPractices clk)
      else if type = ''historical'' then analyzeHistoricalData data flt clk max_args
      else if type = ''combined'' then analyzeCombined data flt clk max_args
      else Inl (Error (''Unknown analysis type: '' @ type)))"

section \<open>Notions used to state the properties\<close>

text \<open>Decimal digits, for the round trip of an hour through the key of the map.\<close>

definition is_dec :: "char \<Rightarrow> bool" where
  "is_dec c = (c \<in> set ''0123456789'')"


text \<open>
  A record is \<open>well_keyed\<close> when its day name has no hyphen and its hour is not
  negative: then the key \<^verbatim>\<open>`${dayOfWeek}-${hourOfDay}`\<close> splits back into the pair it
  was built from. Every record of the data model (\<open>valid_record\<close>: one of the seven
  day names, an hour from 0 to 23) is well keyed.
\<close>

definition well_keyed :: "ProcessedEmailData \<Rightarrow> bool" where
  "well_keyed r = (CHR ''-'' \<notin> set (dayOfWeek r) \<and> 0 \<le> hourOfDay r)"

definition valid_record :: "ProcessedEmailData \<Rightarrow> bool" where
  "valid_record r =
     (dayOfWeek r \<in> set [''Sunday'', ''Monday'', ''Tuesday'', ''Wednesday'', ''Thursday'',
                          ''Friday'', ''Saturday'']
      \<and> 0 \<le> hourOfDay r \<and> hourOfDay r \<le> 23)"

definition slot_pair :: "TimeSlotAnalysis \<Rightarrow> string \<times> int option" where
  "slot_pair b = (ts_dayOfWeek b, ts_hourOfDay b)"

definition record_pair :: "ProcessedEmailData \<Rightarrow> string \<times> int option" where
  "record_pair r = (dayOfWeek r, Some (hourOfDay r))"

definition bucket_members :: "TimeSlotAnalysis \<Rightarrow> ProcessedEmailData list \<Rightarrow> ProcessedEmailData list" where
  "bucket_members b data = filter (\<lambda>r. record_pair r = slot_pair b) data"

definition mean :: "real list \<Rightarrow> real" where
  "mean xs = sum_list xs / real (length xs)"


text \<open>What a bucket and a row of the best-practices table show of themselves.\<close>

definition bucket_view :: "TimeSlotAnalysis \<Rightarrow> string \<times> int option \<times> nat \<times> real \<times> real \<times> real" where
  "bucket_view b = (ts_dayOfWeek b, ts_hourOfDay b, sampleSize b, avgOpenRate b, avgClickRate b, score b)"

definition entry_view :: "BestPractice \<Rightarrow> string \<times> int option \<times> nat \<times> real \<times> real \<times> real" where
  "entry_view e = (bp_dayOfWeek e, Some (bp_hourOfDay e), 0, bp_score e, bp_score e * 0.3, bp_score e)"

text \<open>The filter set that \<^verbatim>\<open>analyzeBestPractices\<close> writes into its metadata.\<close>

definition all_filters :: FilterOptions where
  "all_filters = \<lparr>fo_businessUnit = ''All'', fo_organizationType = ''All'',
                  fo_campaignType = ''All'', fo_timezone = None\<rparr>"

text \<open>The filters of a result's metadata, when there is a result.\<close>

definition result_filters :: "error + AnalysisResult \<Rightarrow> error + FilterOptions" where
  "result_filters r = map_sum id (\<lambda>res. filters (metadata res)) r"

text \<open>A result with the fields that are read from the clock set to a fixed value.\<close>

definition without_timestamp :: "AnalysisResult \<Rightarrow> AnalysisResult" where
  "without_timestamp res = res\<lparr>metadata := (metadata res)\<lparr>timestamp := 0\<rparr>\<rparr>"

definition without_clock :: "AnalysisResult \<Rightarrow> AnalysisResult" where
  "without_clock res =
     res\<lparr>metadata := (metadata res)\<lparr>timestamp := 0,
                                       dateRange := \<lparr>range_start = 0, range_end = 0\<rparr>\<rparr>\<rparr>"

text \<open>The three values of \<^verbatim>\<open>AnalysisType\<close>.\<close>

definition known_types :: "string list" where
  "known_types = [''best-practices'', ''historical'', ''combined'']"


text \<open>
  The blend of the combined analysis, stated on buckets. Two buckets are the same slot
  when they agree on day and hour. A historical bucket takes 60 percent of its score; if
  a best-practice bucket is the same slot, it takes 40 percent of that bucket's score on
  top, and its two rates become the 60/40 mix; its other fields stay. A best-practice
  bucket that no historical bucket matches enters with 40 percent of its score and no
  samples; its two rates stay as they are.
\<close>

definition same_slot :: "TimeSlotAnalysis \<Rightarrow> TimeSlotAnalysis \<Rightarrow> bool" where
  "same_slot a b = (ts_dayOfWeek a = ts_dayOfWeek b \<and> ts_hourOfDay a = ts_hourOfDay b)"

definition blend_historical :: "TimeSlotAnalysis list \<Rightarrow> TimeSlotAnalysis \<Rightarrow> TimeSlotAnalysis" where
  "blend_historical bps h =
     (case find (same_slot h) bps of
        None \<Rightarrow> h\<lparr>score := score h * 0.6\<rparr>
      | Some e \<Rightarrow>
          h\<lparr>score := score h * 0.6 + score e * 0.4,
            avgOpenRate := avgOpenRate h * 0.6 + avgOpenRate e * 0.4,
            avgClickRate := avgClickRate h * 0.6 + avgClickRate e * 0.4\<rparr>)"

definition unmatched_entry :: "TimeSlotAnalysis \<Rightarrow> TimeSlotAnalysis" where
  "unmatched_entry e = e\<lparr>score := score e * 0.4, sampleSize := 0\<rparr>"

definition blended_buckets :: "TimeSlotAnalysis list \<Rightarrow> TimeSlotAnalysis list \<Rightarrow> TimeSlotAnalysis list" where
  "blended_buckets hs bps =
     map (blend_historical bps) hs
     @ map unmatched_entry (filter (\<lambda>e. \<not> list_ex (\<lambda>h. same_slot h e) hs) bps)"

text \<open>
  The unmatched best-practice bucket with all of its values scaled by 0.4, to compare
  with \<open>unmatched_entry\<close>.
\<close>

definition scaled_entry :: "TimeSlotAnalysis \<Rightarrow> TimeSlotAnalysis" where
  "scaled_entry e =
     e\<lparr>score := score e * 0.4, avgOpenRate := avgOpenRate e * 0.4,
       avgClickRate := avgClickRate e * 0.4, sampleSize := 0\<rparr>"

text \<open>
  A bucket whose key \<^verbatim>\<open>`${dayOfWeek}-${hourOfDay}`\<close> splits back into its day and hour.
\<close>

definition slot_keyed :: "TimeSlotAnalysis \<Rightarrow> bool" where
  "slot_keyed s =
     (CHR ''-'' \<notin> set (ts_dayOfWeek s)
      \<and> (case ts_hourOfDay s of None \<Rightarrow> False | Some h \<Rightarrow> 0 \<le> h))"

text \<open>The merge step of the second loop, and its effect on a historical bucket.\<close>

definition merged :: "TimeSlotAnalysis \<Rightarrow> TimeSlotAnalysis \<Rightarrow> TimeSlotAnalysis" where
  "merged existing slot =
     existing\<lparr>score := score existing + score slot * 0.4,
              avgOpenRate := avgOpenRate existing * 0.6 + avgOpenRate slot * 0.4,
              avgClickRate := avgClickRate existing * 0.6 + avgClickRate slot * 0.4\<rparr>"

definition merged_all :: "TimeSlotAnalysis list \<Rightarrow> TimeSlotAnalysis \<Rightarrow> TimeSlotAnalysis" where
  "merged_all bs h =
     (case find (\<lambda>b. slot_key b = slot_key h) bs of
        None \<Rightarrow> h\<lparr>score := score h * 0.6\<rparr>
      | Some b \<Rightarrow> merged (h\<lparr>score := score h * 0.6\<rparr>) b)"

section \<open>Sample input\<close>

definition ex_record :: "string \<Rightarrow> int \<Rightarrow> real \<Rightarrow> real \<Rightarrow> ProcessedEmailData" where
  "ex_record day hour opens clicks =
     \<lparr>businessUnit = ''Legal'', organizationType = ''Corporate'', campaignType = ''Newsletter'',
      sendDate = 1700000000000 + hour, sendTime = ''10:00'', dayOfWeek = day, hourOfDay = hour,
      openRate = opens, clickRate = clicks, unsubscribeRate = 0, bounceRate = 0\<rparr>"

definition ex_data :: "ProcessedEmailData list" where
  "ex_data = [ex_record ''Tuesday'' 10 40 5, ex_record ''Tuesday'' 10 60 15, ex_record ''Friday'' 16 10 1]"

definition ex_filters :: FilterOptions where
  "ex_filters = \<lparr>fo_businessUnit = ''Legal'', fo_organizationType = ''All'',
                 fo_campaignType = ''All'', fo_timezone = None\<rparr>"

definition ex_clock :: "nat \<Rightarrow> int" where
  "ex_clock i = 1700000500000 + int i"

text \<open>A sample argument limit of the engine, and a list of records that is longer.\<close>

definition ex_max_args :: nat where
  "ex_max_args = 125000"


definition ex_clock_later :: "nat \<Rightarrow> int" where
  "ex_clock_later i = 1700000900000 + int i"

text \<open>The historical analysis of the sample input, as the source computes it.\<close>

definition ex_tuesday_slot :: TimeSlotAnalysis where
  "ex_tuesday_slot =
     \<lparr>ts_dayOfWeek = ''Tuesday'', ts_hourOfDay = Some 10, timeLabel = ''10:00 AM'',
      avgOpenRate = 50, avgClickRate = 10, sampleSize = 2, score = 38\<rparr>"

definition ex_friday_slot :: TimeSlotAnalysis where
  "ex_friday_slot =
     \<lparr>ts_dayOfWeek = ''Friday'', ts_hourOfDay = Some 16, timeLabel = ''4:00 PM'',
      avgOpenRate = 10, avgClickRate = 1, sampleSize = 1, score = 7.3\<rparr>"

definition ex_historical_result :: "(nat \<Rightarrow> int) \<Rightarrow> AnalysisResult" where
  "ex_historical_result clk =
     \<lparr>primary = ex_tuesday_slot,
      secondary = ex_friday_slot,
      tertiary = createEmptyTimeSlot,
      allTimeSlots = [ex_tuesday_slot, ex_friday_slot],
      metadata =
        \<lparr>totalRecords = 3,
         dateRange = \<lparr>range_start = 1700000000010, range_end = 1700000000016\<rparr>,
         filters = ex_filters,
         analysisType = ''historical'',
         timestamp = clk 0\<rparr>\<rparr>"


text \<open>The ranked list of the combined analysis of the sample input.\<close>

definition ex_combined_slots :: "TimeSlotAnalysis list" where
  "ex_combined_slots =
     [\<lparr>ts_dayOfWeek = ''Tuesday'', ts_hourOfDay = Some 10, timeLabel = ''10:00 AM'',
       avgOpenRate = 68, avgClickRate = 17.4, sampleSize = 2, score = 60.8\<rparr>,
      \<lparr>ts_dayOfWeek = ''Thursday'', ts_hourOfDay = Some 14, timeLabel = ''2:00 PM'',
       avgOpenRate = 90, avgClickRate = 27, sampleSize = 0, score = 36\<rparr>,
      \<lparr>ts_dayOfWeek = ''Wednesday'', ts_hourOfDay = Some 9, timeLabel = ''9:00 AM'',
       avgOpenRate = 85, avgClickRate = 25.5, sampleSize = 0, score = 34\<rparr>,
      \<lparr>ts_dayOfWeek = ''Tuesday'', ts_hourOfDay = Some 14, timeLabel = ''2:00 PM'',
       avgOpenRate = 82, avgClickRate = 24.6, sampleSize = 0, score = 32.8\<rparr>,
      \<lparr>ts_dayOfWeek = ''Thursday'', ts_hourOfDay = Some 10, timeLabel = ''10:00 AM'',
       avgOpenRate = 80, avgClickRate = 24, sampleSize = 0, score = 32\<rparr>,
      \<lparr>ts_dayOfWeek = ''Friday'', ts_hourOfDay = Some 16, timeLabel = ''4:00 PM'',
       avgOpenRate = 10, avgClickRate = 1, sampleSize = 1, score = 4.38\<rparr>]"

section \<open>Lemmas\<close>

subsection \<open>Sorting\<close>

lemma mset_insert_by: "mset (insert_by cmp x xs) = add_mset x (mset xs)"
  by (induction xs) auto

lemma mset_Array_sort: "mset (Array_sort cmp xs) = mset xs"
  unfolding Array_sort_def by (induction xs) (auto simp: mset_insert_by)

lemma set_Array_sort: "set (Array_sort cmp xs) = set xs"
  using mset_Array_sort [of cmp xs] by (metis set_mset_mset)

lemma length_Array_sort: "length (Array_sort cmp xs) = length xs"
  using mset_Array_sort [of cmp xs] by (metis size_mset)

lemma set_insert_by: "set (insert_by cmp x xs) = insert x (set xs)"
  by (induction xs) auto

lemma sorted_insert_by_score:
  "sorted_wrt (\<lambda>a b. score b \<le> score a) xs
     \<Longrightarrow> sorted_wrt (\<lambda>a b. score b \<le> score a) (insert_by by_score_desc x xs)"
  by (induction xs) (auto simp: set_insert_by by_score_desc_def)

lemma sorted_Array_sort:
  "sorted_wrt (\<lambda>a b. score b \<le> score a) (Array_sort by_score_desc xs)"
  unfolding Array_sort_def by (induction xs) (auto intro: sorted_insert_by_score)

lemma Array_sort_nth_mono:
  assumes "i < j" "j < length (Array_sort by_score_desc xs)"
  shows "score (Array_sort by_score_desc xs ! j) \<le> score (Array_sort by_score_desc xs ! i)"
  using sorted_Array_sort [of xs] assms by (simp add: sorted_wrt_iff_nth_less)

lemma distinct_map_Array_sort:
  "distinct (map f (Array_sort cmp xs)) = distinct (map f xs)"
proof -
  have "mset (map f (Array_sort cmp xs)) = mset (map f xs)"
    by (simp add: mset_Array_sort)
  then show ?thesis by (rule mset_eq_imp_distinct_iff)
qed


subsection \<open>Strings\<close>

lemma split_on_no_sep: "c \<notin> set s \<Longrightarrow> split_on c s = [s]"
  by (induction s) auto

lemma split_on_append: "c \<notin> set a \<Longrightarrow> split_on c (a @ c # b) = a # split_on c b"
  by (induction a) auto

lemma digit_char_dec: "is_dec (digit_char d)"
  by (simp add: is_dec_def digit_char_def del: set_simps)

lemma below_ten:
  "d < 10 \<Longrightarrow> d = 0 \<or> d = 1 \<or> d = 2 \<or> d = 3 \<or> d = 4 \<or> d = 5 \<or> d = 6 \<or> d = 7 \<or> d = 8 \<or> d = (9::nat)"
  by arith

lemma digit_val_digit_char: "d < 10 \<Longrightarrow> digit_val 10 (digit_char d) = Some d"
  by (drule below_ten) (elim disjE; simp add: digit_val_def digit_char_def digit_table_def)

lemma is_dec_cases:
  "is_dec c \<Longrightarrow> c = CHR ''0'' \<or> c = CHR ''1'' \<or> c = CHR ''2'' \<or> c = CHR ''3'' \<or> c = CHR ''4''
     \<or> c = CHR ''5'' \<or> c = CHR ''6'' \<or> c = CHR ''7'' \<or> c = CHR ''8'' \<or> c = CHR ''9''"
  by (simp add: is_dec_def)

lemma is_dec_digit_val: "is_dec c \<Longrightarrow> digit_val 10 c \<noteq> None"
  by (drule is_dec_cases) (elim disjE; simp add: digit_val_def digit_table_def)

lemma is_dec_plain:
  "is_dec c \<Longrightarrow> \<not> is_space c \<and> c \<noteq> CHR ''-'' \<and> c \<noteq> CHR ''+'' \<and> c \<noteq> CHR ''x'' \<and> c \<noteq> CHR ''X''"
  by (drule is_dec_cases) (elim disjE; simp add: is_space_def)

lemma nat_toString_dec: "\<forall>c\<in>set (nat_toString n). is_dec c"
proof (induction n rule: nat_toString.induct)
  case (1 n)
  show ?case
  proof (cases "n < 10")
    case True
    then show ?thesis
      by (subst nat_toString.simps) (simp add: digit_char_dec)
  next
    case False
    with 1 show ?thesis
      by (subst nat_toString.simps) (simp add: digit_char_dec)
  qed
qed

lemma nat_toString_nonempty: "nat_toString n \<noteq> []"
  by (subst nat_toString.simps) simp

lemma nat_toString_value:
  "fold (\<lambda>c acc. acc * 10 + (case digit_val 10 c of None \<Rightarrow> 0 | Some d \<Rightarrow> d)) (nat_toString n) 0 = n"
proof (induction n rule: nat_toString.induct)
  case (1 n)
  show ?case
  proof (cases "n < 10")
    case True
    then show ?thesis
      by (subst nat_toString.simps) (simp add: digit_val_digit_char)
  next
    case False
    have "n mod 10 < 10" by simp
    with False 1 show ?thesis
      by (subst nat_toString.simps) (simp add: digit_val_digit_char)
  qed
qed

lemma parseInt_nat_toString: "parseInt (nat_toString n) = Some (int n)"
proof -
  obtain c cs where s: "nat_toString n = c # cs"
    using nat_toString_nonempty [of n] by (cases "nat_toString n") auto
  have dec: "\<forall>c\<in>set (nat_toString n). is_dec c" by (rule nat_toString_dec)
  have c: "is_dec c" using dec s by simp
  have dw: "dropWhile is_space (nat_toString n) = nat_toString n"
    using s c is_dec_plain [of c] by simp
  have neg: "(case nat_toString n of [] \<Rightarrow> False | c # _ \<Rightarrow> c = CHR ''-'') = False"
    using s c is_dec_plain [of c] by simp
  have s2: "(case nat_toString n of [] \<Rightarrow> []
             | c # cs \<Rightarrow> if c = CHR ''-'' \<or> c = CHR ''+'' then cs else nat_toString n) = nat_toString n"
    using s c is_dec_plain [of c] by simp
  have nohex: "(case nat_toString n of c # x # _ \<Rightarrow> c = CHR ''0'' \<and> (x = CHR ''x'' \<or> x = CHR ''X'') | _ \<Rightarrow> False) = False"
  proof (cases cs)
    case Nil
    then show ?thesis using s by simp
  next
    case (Cons x xs)
    then have "is_dec x" using dec s by simp
    then show ?thesis using s Cons is_dec_plain [of x] by simp
  qed
  have tw: "takeWhile (\<lambda>c. digit_val 10 c \<noteq> None) (nat_toString n) = nat_toString n"
    using dec is_dec_digit_val by (intro takeWhile_eq_all_conv [THEN iffD2]) blast
  show ?thesis
    unfolding parseInt_def Let_def dw neg s2 nohex
    apply (simp only: if_False tw nat_toString_value nat_toString_nonempty)
    done
qed

lemma no_hyphen_nat_toString: "CHR ''-'' \<notin> set (nat_toString n)"
  using nat_toString_dec [of n] is_dec_plain by blast

lemma split_key_roundtrip:
  assumes "CHR ''-'' \<notin> set d" "0 \<le> h"
  shows "split_key (d @ CHR ''-'' # int_toString h) = (d, Some h)"
proof -
  have "split_on CHR ''-'' (d @ CHR ''-'' # nat_toString (nat h)) = [d, nat_toString (nat h)]"
    using assms by (simp add: split_on_append split_on_no_sep no_hyphen_nat_toString)
  then show ?thesis
    using assms by (simp add: split_key_def int_toString_def parseInt_nat_toString)
qed

lemma valid_record_well_keyed: "valid_record r \<Longrightarrow> well_keyed r"
  by (auto simp: valid_record_def well_keyed_def)

subsection \<open>Grouping\<close>

lemma group_step_map_of:
  "map_of (group_step row m) =
     (map_of m)(record_key row \<mapsto> (case map_of m (record_key row) of None \<Rightarrow> [] | Some rs \<Rightarrow> rs) @ [row])"
  by (auto simp: group_step_def Let_def update_conv' split: option.splits)

lemma group_step_distinct:
  "distinct (map fst m) \<Longrightarrow> distinct (map fst (group_step row m))"
  by (auto simp: group_step_def Let_def distinct_update split: option.splits)

lemma group_fold_distinct: "distinct (map fst (fold group_step data []))"
  by (induction data rule: rev_induct) (simp_all add: group_step_distinct)

lemma group_fold_map_of:
  "map_of (fold group_step data []) k =
     (if k \<in> record_key ` set data then Some (filter (\<lambda>r. record_key r = k) data) else None)"
proof (induction data rule: rev_induct)
  case Nil
  then show ?case by simp
next
  case (snoc x xs)
  have none: "filter (\<lambda>r. record_key r = record_key x) xs = []" if "record_key x \<notin> record_key ` set xs"
    using that by (fastforce simp: filter_empty_conv image_iff)
  show ?case
    using snoc none by (auto simp: group_step_map_of)
qed

lemma group_fold_entry:
  assumes "(k, rs) \<in> set (fold group_step data [])"
  shows "k \<in> record_key ` set data \<and> rs = filter (\<lambda>r. record_key r = k) data"
proof -
  have "map_of (fold group_step data []) k = Some rs"
    using assms group_fold_distinct by simp
  then show ?thesis
    by (simp add: group_fold_map_of split: if_splits)
qed



lemma count_no_key: "k \<notin> set ks \<Longrightarrow> (\<Sum>k'\<leftarrow>ks. if k = k' then 1 else 0) = (0::nat)"
  by (induction ks) auto



subsection \<open>Slots of well-keyed records\<close>

lemma split_key_record: "well_keyed r \<Longrightarrow> split_key (record_key r) = record_pair r"
  by (simp add: well_keyed_def record_key_def record_pair_def split_key_roundtrip)

lemma record_key_eq_iff:
  assumes "well_keyed r" "well_keyed r'"
  shows "record_key r = record_key r' \<longleftrightarrow> record_pair r = record_pair r'"
proof
  assume "record_key r = record_key r'"
  then have "split_key (record_key r) = split_key (record_key r')" by simp
  then show "record_pair r = record_pair r'" using assms by (simp add: split_key_record)
next
  assume "record_pair r = record_pair r'"
  then show "record_key r = record_key r'" by (simp add: record_pair_def record_key_def)
qed

lemma fold_plus_sum_list:
  "fold (\<lambda>r sum. sum + f r) rs a = a + sum_list (map f rs)" for a :: real
  by (induction rs arbitrary: a) simp_all

lemma slot_of_entry_fields:
  "ts_dayOfWeek (slot_of_entry (k, rs)) = fst (split_key k)"
  "ts_hourOfDay (slot_of_entry (k, rs)) = snd (split_key k)"
  "timeLabel (slot_of_entry (k, rs)) = formatTimeLabel (snd (split_key k))"
  "sampleSize (slot_of_entry (k, rs)) = length rs"
  "avgOpenRate (slot_of_entry (k, rs)) = mean (map openRate rs)"
  "avgClickRate (slot_of_entry (k, rs)) = mean (map clickRate rs)"
  "score (slot_of_entry (k, rs))
     = avgOpenRate (slot_of_entry (k, rs)) * 0.7 + avgClickRate (slot_of_entry (k, rs)) * 0.3"
  by (simp_all add: slot_of_entry_def Let_def mean_def fold_plus_sum_list)

lemma slot_pair_entry: "slot_pair (slot_of_entry e) = split_key (fst e)"
  by (cases e) (simp add: slot_pair_def slot_of_entry_fields)

lemma entry_members:
  assumes wk: "\<forall>r\<in>set data. well_keyed r" and e: "(k, rs) \<in> set (fold group_step data [])"
  shows "bucket_members (slot_of_entry (k, rs)) data = rs \<and> rs \<noteq> []
         \<and> (\<exists>r0\<in>set data. k = record_key r0 \<and> slot_pair (slot_of_entry (k, rs)) = record_pair r0)"
proof -
  from group_fold_entry [OF e] obtain r0 where r0: "r0 \<in> set data" "k = record_key r0"
    and rs: "rs = filter (\<lambda>r. record_key r = k) data" by auto
  have pair: "slot_pair (slot_of_entry (k, rs)) = record_pair r0"
    using r0 wk by (simp add: slot_pair_entry split_key_record)
  have "filter (\<lambda>r. record_pair r = record_pair r0) data = filter (\<lambda>r. record_key r = record_key r0) data"
    using wk r0 by (intro filter_cong refl) (simp add: record_key_eq_iff)
  then have mem: "bucket_members (slot_of_entry (k, rs)) data = rs"
    using pair rs r0 by (simp add: bucket_members_def)
  have "r0 \<in> set rs" using r0 rs by simp
  then have "rs \<noteq> []" by auto
  with mem pair r0 show ?thesis by blast
qed


lemma analyzeHistoricalData_nonempty:
  assumes "data \<noteq> []" "length data \<le> max_args"
  shows "analyzeHistoricalData data flt clk max_args =
     Inr \<lparr>primary = slot_or_empty (Array_sort by_score_desc (map slot_of_entry (fold group_step data []))) 0,
          secondary = slot_or_empty (Array_sort by_score_desc (map slot_of_entry (fold group_step data []))) 1,
          tertiary = slot_or_empty (Array_sort by_score_desc (map slot_of_entry (fold group_step data []))) 2,
          allTimeSlots = Array_sort by_score_desc (map slot_of_entry (fold group_step data [])),
          metadata =
            \<lparr>totalRecords = length data,
             dateRange = \<lparr>range_start = fold min (map sendDate (tl data)) (sendDate (hd data)),
                          range_end = fold max (map sendDate (tl data)) (sendDate (hd data))\<rparr>,
             filters = flt,
             analysisType = ''historical'',
             timestamp = clk 0\<rparr>\<rparr>"
  using assms
  by (cases data) (simp_all add: analyzeHistoricalData_def Math_min_def Math_max_def Let_def)

lemma analyzeHistoricalData_over:
  assumes "max_args < length data"
  shows "analyzeHistoricalData data flt clk max_args = Inl RangeError"
  using assms
  by (cases data) (simp_all add: analyzeHistoricalData_def Math_min_def Let_def)

lemma analyzeHistoricalData_returns:
  assumes "analyzeHistoricalData data flt clk max_args = Inr res"
  shows "data \<noteq> [] \<and> length data \<le> max_args"
proof -
  have "data \<noteq> []" using assms by (auto simp: analyzeHistoricalData_def)
  moreover have "length data \<le> max_args"
  proof (rule ccontr)
    assume "\<not> length data \<le> max_args"
    then have "analyzeHistoricalData data flt clk max_args = Inl RangeError"
      by (simp add: analyzeHistoricalData_over)
    with assms show False by simp
  qed
  ultimately show ?thesis by simp
qed


subsection \<open>The results of the three analyses\<close>

lemma analyzeCombined_nonempty:
  assumes "data \<noteq> []" "length data \<le> max_args"
  shows "analyzeCombined data flt clk max_args =
     Inr \<lparr>primary = slot_or_empty (Array_sort by_score_desc (map snd
                 (fold merge_best_practice (map bestPracticeSlot BEST_PRACTICES)
                   (fold add_historical
                     (Array_sort by_score_desc (map slot_of_entry (fold group_step data []))) [])))) 0,
          secondary = slot_or_empty (Array_sort by_score_desc (map snd
                 (fold merge_best_practice (map bestPracticeSlot BEST_PRACTICES)
                   (fold add_historical
                     (Array_sort by_score_desc (map slot_of_entry (fold group_step data []))) [])))) 1,
          tertiary = slot_or_empty (Array_sort by_score_desc (map snd
                 (fold merge_best_practice (map bestPracticeSlot BEST_PRACTICES)
                   (fold add_historical
                     (Array_sort by_score_desc (map slot_of_entry (fold group_step data []))) [])))) 2,
          allTimeSlots = Array_sort by_score_desc (map snd
                 (fold merge_best_practice (map bestPracticeSlot BEST_PRACTICES)
                   (fold add_historical
                     (Array_sort by_score_desc (map slot_of_entry (fold group_step data []))) []))),
          metadata =
            \<lparr>totalRecords = length data,
             dateRange = \<lparr>range_start = fold min (map sendDate (tl data)) (sendDate (hd data)),
                          range_end = fold max (map sendDate (tl data)) (sendDate (hd data))\<rparr>,
             filters = flt,
             analysisType = ''combined'',
             timestamp = clk 4\<rparr>\<rparr>"
  using assms
  by (simp add: analyzeCombined_def analyzeHistoricalData_nonempty analyzeBestPractices_def Let_def)

lemma analyzeCombined_over:
  assumes "max_args < length data"
  shows "analyzeCombined data flt clk max_args = Inl RangeError"
proof -
  have "data \<noteq> []" using assms by auto
  then show ?thesis using assms by (simp add: analyzeCombined_def analyzeHistoricalData_over)
qed

lemma analyzeCombined_returns:
  assumes "analyzeCombined data flt clk max_args = Inr res" "data \<noteq> []"
  shows "length data \<le> max_args"
proof (rule ccontr)
  assume "\<not> length data \<le> max_args"
  then have "analyzeCombined data flt clk max_args = Inl RangeError"
    by (simp add: analyzeCombined_over)
  with assms show False by simp
qed

lemma best_practice_slots_sorted:
  "sorted_wrt (\<lambda>a b. score b \<le> score a) (map bestPracticeSlot BEST_PRACTICES)"
  by (simp add: BEST_PRACTICES_def bestPracticeSlot_def)

lemma ex_within_limit: "length ex_data \<le> ex_max_args"
  by (simp add: ex_data_def ex_max_args_def)

lemma ex_historical:
  "analyzeHistoricalData ex_data ex_filters clk ex_max_args = Inr (ex_historical_result clk)"
  by (simp add: analyzeHistoricalData_def Math_min_def Math_max_def ex_max_args_def ex_data_def ex_record_def ex_filters_def
      group_step_def record_key_def int_toString_def nat_toString.simps digit_char_def
      digit_val_def digit_table_def slot_of_entry_def split_key_def parseInt_def is_space_def
      formatTimeLabel_def number_toString_def Array_sort_def by_score_desc_def slot_or_empty_def
      createEmptyTimeSlot_def Let_def ex_historical_result_def ex_tuesday_slot_def ex_friday_slot_def)


subsection \<open>Association lists\<close>

lemma update_new_key: "k \<notin> fst ` set m \<Longrightarrow> AList.update k v m = m @ [(k, v)]"
  by (induction m) auto

lemma find_append_cases:
  "find P (xs @ ys) = (case find P xs of None \<Rightarrow> find P ys | Some x \<Rightarrow> Some x)"
  by (induction xs) auto

lemma update_keyed_map:
  assumes "distinct (map key hs)" "h0 \<in> set hs"
  shows "AList.update (key h0) v (map (\<lambda>h. (key h, g h)) hs @ T)
         = map (\<lambda>h. (key h, if h = h0 then v else g h)) hs @ T"
  using assms
proof (induction hs)
  case Nil
  then show ?case by simp
next
  case (Cons h hs)
  show ?case
  proof (cases "h = h0")
    case True
    then have "h0 \<notin> set hs" using Cons.prems by auto
    then have "map (\<lambda>h. (key h, if h = h0 then v else g h)) hs = map (\<lambda>h. (key h, g h)) hs"
      by (intro map_cong refl) auto
    with True show ?thesis by simp
  next
    case False
    then have "h0 \<in> set hs" "key h \<noteq> key h0" using Cons.prems by auto
    with Cons False show ?thesis by simp
  qed
qed

lemma map_of_keyed_map:
  assumes "distinct (map key hs)" "h0 \<in> set hs"
  shows "map_of (map (\<lambda>h. (key h, g h)) hs @ T) (key h0) = Some (g h0)"
  using assms by (induction hs) (auto simp: image_iff)

lemma map_of_keyed_map_other:
  assumes "k \<notin> key ` set hs"
  shows "map_of (map (\<lambda>h. (key h, g h)) hs @ T) k = map_of T k"
  using assms by (induction hs) auto

subsection \<open>The two loops of the combined analysis\<close>

lemma fold_add_historical:
  assumes "distinct (map slot_key hs)" "slot_key ` set hs \<inter> fst ` set m0 = {}"
  shows "fold add_historical hs m0
         = m0 @ map (\<lambda>h. (slot_key h, h\<lparr>score := score h * 0.6\<rparr>)) hs"
  using assms
proof (induction hs arbitrary: m0)
  case Nil
  then show ?case by simp
next
  case (Cons h hs)
  have new: "slot_key h \<notin> fst ` set m0" using Cons.prems by auto
  have step: "add_historical h m0 = m0 @ [(slot_key h, h\<lparr>score := score h * 0.6\<rparr>)]"
    by (simp add: add_historical_def update_new_key [OF new])
  have "slot_key ` set hs \<inter> fst ` set (add_historical h m0) = {}"
    using Cons.prems by (auto simp: step)
  moreover have "distinct (map slot_key hs)" using Cons.prems by simp
  ultimately show ?case using Cons.IH [of "add_historical h m0"] by (simp add: step)
qed



lemma merge_best_practice_alt:
  "merge_best_practice slot m =
     (case map_of m (slot_key slot) of
        Some existing \<Rightarrow> AList.update (slot_key slot) (merged existing slot) m
      | None \<Rightarrow> AList.update (slot_key slot) (unmatched_entry slot) m)"
  by (simp add: merge_best_practice_def merged_def unmatched_entry_def Let_def split: option.splits)

lemma fold_snoc: "fold f (xs @ [x]) s = f x (fold f xs s)"
  by simp

lemma fold_merge_best_practice:
  assumes dh: "distinct (map slot_key hs)" and db: "distinct (map slot_key bs)"
  shows "fold merge_best_practice bs (map (\<lambda>h. (slot_key h, h\<lparr>score := score h * 0.6\<rparr>)) hs)
         = map (\<lambda>h. (slot_key h, merged_all bs h)) hs
           @ map (\<lambda>b. (slot_key b, unmatched_entry b))
               (filter (\<lambda>b. slot_key b \<notin> slot_key ` set hs) bs)"
  using db
proof (induction bs rule: rev_induct)
  case Nil
  then show ?case by (simp add: merged_all_def)
next
  case (snoc b bs)
  let ?N = "map (\<lambda>b. (slot_key b, unmatched_entry b)) (filter (\<lambda>b. slot_key b \<notin> slot_key ` set hs) bs)"
  let ?M = "\<lambda>bs. map (\<lambda>h. (slot_key h, merged_all bs h)) hs"
  have fresh: "slot_key b \<notin> slot_key ` set bs" and dbs: "distinct (map slot_key bs)"
    using snoc.prems by auto
  have IH: "fold merge_best_practice bs (map (\<lambda>h. (slot_key h, h\<lparr>score := score h * 0.6\<rparr>)) hs) = ?M bs @ ?N"
    using snoc.IH dbs by simp
  have notN: "slot_key b \<notin> fst ` set ?N" using fresh by (auto simp: image_iff)
  have none_b: "find (\<lambda>b'. slot_key b' = k) bs = None" if "k = slot_key b" for k
    using fresh that by (auto simp: find_None_iff image_iff)
  show ?case
  proof (cases "slot_key b \<in> slot_key ` set hs")
    case True
    then obtain h1 where h1: "h1 \<in> set hs" "slot_key h1 = slot_key b" by auto
    have look: "map_of (?M bs @ ?N) (slot_key b) = Some (merged_all bs h1)"
      using map_of_keyed_map [OF dh h1(1), of "merged_all bs" ?N] h1 by simp
    have old: "merged_all bs h1 = h1\<lparr>score := score h1 * 0.6\<rparr>"
      using none_b [of "slot_key h1"] h1 by (simp add: merged_all_def)
    have upd: "AList.update (slot_key b) (merged (h1\<lparr>score := score h1 * 0.6\<rparr>) b) (?M bs @ ?N)
               = map (\<lambda>h. (slot_key h, if h = h1 then merged (h1\<lparr>score := score h1 * 0.6\<rparr>) b
                                        else merged_all bs h)) hs @ ?N"
      using update_keyed_map [OF dh h1(1), of _ "merged_all bs" ?N] h1 by simp
    have same: "(if h = h1 then merged (h1\<lparr>score := score h1 * 0.6\<rparr>) b else merged_all bs h)
                = merged_all (bs @ [b]) h" if "h \<in> set hs" for h
    proof (cases "h = h1")
      case True
      then show ?thesis
        using none_b [of "slot_key h1"] h1 by (simp add: merged_all_def find_append_cases)
    next
      case False
      then have "slot_key h \<noteq> slot_key b"
        using that h1 dh by (auto simp: distinct_map inj_on_def)
      then show ?thesis
        using False by (simp add: merged_all_def find_append_cases split: option.splits)
    qed
    have "fold merge_best_practice (bs @ [b]) (map (\<lambda>h. (slot_key h, h\<lparr>score := score h * 0.6\<rparr>)) hs)
          = merge_best_practice b (?M bs @ ?N)"
      by (simp only: fold_snoc IH)
    also have "\<dots> = map (\<lambda>h. (slot_key h, if h = h1 then merged (h1\<lparr>score := score h1 * 0.6\<rparr>) b
                                        else merged_all bs h)) hs @ ?N"
      by (simp only: merge_best_practice_alt look option.case old upd)
    also have "map (\<lambda>h. (slot_key h, if h = h1 then merged (h1\<lparr>score := score h1 * 0.6\<rparr>) b
                                        else merged_all bs h)) hs = ?M (bs @ [b])"
      using same by (intro map_cong refl) simp
    finally show ?thesis using True by simp
  next
    case False
    have look: "map_of (?M bs @ ?N) (slot_key b) = None"
      using map_of_keyed_map_other [OF False, of "merged_all bs" ?N] notN
      by (simp add: map_of_eq_None_iff)
    have notM: "slot_key b \<notin> fst ` set (?M bs @ ?N)"
      using False notN by (auto simp: image_iff)
    have same: "merged_all (bs @ [b]) h = merged_all bs h" if "h \<in> set hs" for h
    proof -
      have "slot_key b \<noteq> slot_key h" using False that by auto
      then show ?thesis by (simp add: merged_all_def find_append_cases split: option.splits)
    qed
    have "fold merge_best_practice (bs @ [b]) (map (\<lambda>h. (slot_key h, h\<lparr>score := score h * 0.6\<rparr>)) hs)
          = merge_best_practice b (?M bs @ ?N)"
      by (simp only: fold_snoc IH)
    also have "\<dots> = (?M bs @ ?N) @ [(slot_key b, unmatched_entry b)]"
      by (simp only: merge_best_practice_alt look option.case update_new_key [OF notM])
    also have "?M bs = ?M (bs @ [b])"
      using same by (intro map_cong refl) simp
    finally show ?thesis using False by simp
  qed
qed

subsection \<open>Keys of slots\<close>

lemma slot_key_split: "slot_keyed s \<Longrightarrow> split_key (slot_key s) = slot_pair s"
  by (auto simp: slot_keyed_def slot_key_def slot_pair_def number_toString_def split_key_roundtrip
      split: option.splits)

lemma slot_key_eq_iff:
  assumes "slot_keyed a" "slot_keyed b"
  shows "slot_key a = slot_key b \<longleftrightarrow> same_slot a b"
proof
  assume "slot_key a = slot_key b"
  then have "split_key (slot_key a) = split_key (slot_key b)" by simp
  then show "same_slot a b" using assms by (simp add: slot_key_split slot_pair_def same_slot_def)
next
  assume "same_slot a b"
  then show "slot_key a = slot_key b" by (simp add: same_slot_def slot_key_def)
qed

lemma best_practice_slots_keyed:
  "\<forall>b\<in>set (map bestPracticeSlot BEST_PRACTICES). slot_keyed b"
  by (simp add: BEST_PRACTICES_def bestPracticeSlot_def slot_keyed_def)

lemma best_practice_keys_distinct:
  "distinct (map slot_key (map bestPracticeSlot BEST_PRACTICES))"
  by (simp add: BEST_PRACTICES_def bestPracticeSlot_def slot_key_def number_toString_def
      int_toString_def nat_toString.simps digit_char_def)

lemma historical_slot_keyed:
  assumes wk: "\<forall>r\<in>set data. well_keyed r" and e: "e \<in> set (fold group_step data [])"
  shows "slot_keyed (slot_of_entry e) \<and> slot_key (slot_of_entry e) = fst e"
proof -
  obtain k rs where krs: "e = (k, rs)" by (cases e)
  from entry_members [OF wk e [unfolded krs]] obtain r0 where r0: "r0 \<in> set data"
    "k = record_key r0" "slot_pair (slot_of_entry (k, rs)) = record_pair r0" by auto
  have "well_keyed r0" using wk r0 by simp
  then show ?thesis
    using r0 krs
    by (simp add: slot_keyed_def well_keyed_def slot_pair_def record_pair_def slot_key_def
        record_key_def number_toString_def)
qed

lemma historical_keys_distinct:
  assumes wk: "\<forall>r\<in>set data. well_keyed r"
  shows "distinct (map slot_key (Array_sort by_score_desc (map slot_of_entry (fold group_step data []))))"
proof -
  have "map slot_key (map slot_of_entry (fold group_step data [])) = map fst (fold group_step data [])"
    using historical_slot_keyed [OF wk] by simp
  then show ?thesis
    using group_fold_distinct [of data] by (simp only: distinct_map_Array_sort)
qed

lemma merged_all_blend:
  assumes "slot_keyed h" "\<forall>b\<in>set bs. slot_keyed b"
  shows "merged_all bs h = blend_historical bs h"
proof -
  have "find (\<lambda>b. slot_key b = slot_key h) bs = find (same_slot h) bs"
    using assms by (intro find_cong refl) (auto simp: slot_key_eq_iff same_slot_def)
  then show ?thesis
    by (simp add: merged_all_def blend_historical_def merged_def split: option.splits)
qed

lemma combined_slots_blend:
  assumes dh: "distinct (map slot_key hs)" and db: "distinct (map slot_key bs)"
    and kh: "\<forall>h\<in>set hs. slot_keyed h" and kb: "\<forall>b\<in>set bs. slot_keyed b"
  shows "map snd (fold merge_best_practice bs (fold add_historical hs [])) = blended_buckets hs bs"
proof -
  have "fold add_historical hs [] = map (\<lambda>h. (slot_key h, h\<lparr>score := score h * 0.6\<rparr>)) hs"
    using fold_add_historical [OF dh, of "[]"] by simp
  then have "map snd (fold merge_best_practice bs (fold add_historical hs []))
             = map (merged_all bs) hs
               @ map unmatched_entry (filter (\<lambda>b. slot_key b \<notin> slot_key ` set hs) bs)"
    by (simp only: fold_merge_best_practice [OF dh db]) (simp add: comp_def)
  moreover have "map (merged_all bs) hs = map (blend_historical bs) hs"
    using kh kb by (intro map_cong refl) (simp add: merged_all_blend)
  moreover have "filter (\<lambda>b. slot_key b \<notin> slot_key ` set hs) bs
                 = filter (\<lambda>e. \<not> list_ex (\<lambda>h. same_slot h e) hs) bs"
  proof (intro filter_cong refl)
    fix b assume b: "b \<in> set bs"
    have "slot_key b = slot_key h \<longleftrightarrow> same_slot h b" if "h \<in> set hs" for h
      using slot_key_eq_iff [of h b] kh kb b that by auto
    then show "(slot_key b \<notin> slot_key ` set hs) = (\<not> list_ex (\<lambda>h. same_slot h b) hs)"
      by (auto simp: list_ex_iff image_iff)
  qed
  ultimately show ?thesis by (simp only: blended_buckets_def)
qed

lemma ex_combined:
  "map_sum id allTimeSlots (analyzeCombined ex_data ex_filters clk ex_max_args) = Inr ex_combined_slots"
proof -
  have ne: "ex_data \<noteq> []" by (simp add: ex_data_def)
  show ?thesis
    by (simp add: analyzeCombined_def ne ex_historical ex_historical_result_def ex_tuesday_slot_def
        ex_friday_slot_def analyzeBestPractices_def BEST_PRACTICES_def bestPracticeSlot_def
        add_historical_def merge_best_practice_def slot_key_def number_toString_def int_toString_def
        nat_toString.simps digit_char_def Array_sort_def by_score_desc_def Let_def
        ex_combined_slots_def)
qed

section \<open>The properties\<close>




text \<open>
  C2, as stated: a best-practice entry without a matching historical bucket is inserted
  with its values scaled by 0.4. This fails for the two rates: on the sample input the
  Wednesday 9:00 entry has no match, and the bucket inserted for it is
  \<open>unmatched_entry\<close> of the entry (open rate 85), not \<open>scaled_entry\<close> (open rate 34),
  which is no element of the ranked list.
\<close>

theorem combined_unmatched_counterexample:
  "map_sum id allTimeSlots (analyzeCombined ex_data ex_filters ex_clock ex_max_args) = Inr ex_combined_slots
   \<and> ex_combined_slots ! 2 = unmatched_entry (bestPracticeSlot (BEST_PRACTICES ! 2))
   \<and> scaled_entry (bestPracticeSlot (BEST_PRACTICES ! 2)) \<notin> set ex_combined_slots
   \<and> avgOpenRate (ex_combined_slots ! 2) = 85
   \<and> avgOpenRate (scaled_entry (bestPracticeSlot (BEST_PRACTICES ! 2))) = 34"
  by (simp add: ex_combined)
     (simp add: ex_combined_slots_def unmatched_entry_def scaled_entry_def BEST_PRACTICES_def
        bestPracticeSlot_def)

text \<open>
  C2, amended. For every non-empty list of records of the data model that is no longer
  than the engine's argument limit, the historical and the combined analysis succeed,
  and the ranked list of the combined analysis is the sorted list of \<open>blended_buckets\<close>
  of the historical buckets and the five best-practice buckets: every historical bucket
  with its score scaled by 0.6, and, where a best-practice entry has the same day and
  hour, 0.4 times the entry's score added, both rates replaced by 0.6 times the
  historical plus 0.4 times the entry's value, the sample size kept; followed by every
  best-practice entry without such a bucket, with its score scaled by 0.4, its rates
  unscaled and sample size 0.
\<close>

theorem combined_blend:
  assumes ne: "data \<noteq> []" and len: "length data \<le> max_args"
    and valid: "\<forall>r\<in>set data. valid_record r"
  shows "\<exists>hist res. analyzeHistoricalData data flt clk max_args = Inr hist
           \<and> analyzeCombined data flt clk max_args = Inr res
           \<and> allTimeSlots res =
               Array_sort by_score_desc
                 (blended_buckets (allTimeSlots hist) (map bestPracticeSlot BEST_PRACTICES))"
proof -
  let ?hs = "Array_sort by_score_desc (map slot_of_entry (fold group_step data []))"
  let ?bs = "map bestPracticeSlot BEST_PRACTICES"
  have wk: "\<forall>r\<in>set data. well_keyed r"
    using valid valid_record_well_keyed by blast
  have kh: "\<forall>h\<in>set ?hs. slot_keyed h"
    using historical_slot_keyed [OF wk] by (auto simp: set_Array_sort)
  have "map snd (fold merge_best_practice ?bs (fold add_historical ?hs [])) = blended_buckets ?hs ?bs"
    using historical_keys_distinct [OF wk] best_practice_keys_distinct kh best_practice_slots_keyed
    by (rule combined_slots_blend)
  then show ?thesis
    using ne len by (simp add: analyzeHistoricalData_nonempty analyzeCombined_nonempty)
qed

theorem combined_blend_witness:
  "ex_data \<noteq> [] \<and> length ex_data \<le> ex_max_args \<and> list_all valid_record ex_data
   \<and> (\<exists>hist res. analyzeHistoricalData ex_data ex_filters ex_clock ex_max_args = Inr hist
           \<and> analyzeCombined ex_data ex_filters ex_clock ex_max_args = Inr res
           \<and> allTimeSlots res =
               Array_sort by_score_desc
                 (blended_buckets (allTimeSlots hist) (map bestPracticeSlot BEST_PRACTICES)))"
proof -
  have h1: "ex_data \<noteq> []" by (simp add: ex_data_def)
  have h2: "\<forall>r\<in>set ex_data. valid_record r"
    by (simp add: ex_data_def ex_record_def valid_record_def)
  have h3: "list_all valid_record ex_data" using h2 by (simp only: list_all_iff)
  show ?thesis
    using h1 h3 ex_within_limit
      combined_blend [OF h1 ex_within_limit h2, of ex_filters ex_clock]
    by blast
qed

text \<open>
  C3. The historical analysis of an empty list of records raises the error "No data
  available for analysis", directly and through \<^verbatim>\<open>performAnalysis\<close>; for every
  non-empty list it does not raise this error, and when the list is no longer than the
  engine's argument limit it raises no error and returns a result.
\<close>

theorem historical_empty_raises:
  "analyzeHistoricalData [] flt clk max_args = Inl (Error ''No data available for analysis'')
   \<and> performAnalysis [] ''historical'' flt clk max_args = Inl (Error ''No data available for analysis'')
   \<and> (data \<noteq> [] \<longrightarrow>
        analyzeHistoricalData data flt clk max_args \<noteq> Inl (Error ''No data available for analysis'')
        \<and> performAnalysis data ''historical'' flt clk max_args
            \<noteq> Inl (Error ''No data available for analysis''))
   \<and> (data \<noteq> [] \<and> length data \<le> max_args \<longrightarrow>
        (\<exists>res. analyzeHistoricalData data flt clk max_args = Inr res
              \<and> performAnalysis data ''historical'' flt clk max_args = Inr res))"
proof -
  have empty: "analyzeHistoricalData [] flt clk max_args = Inl (Error ''No data available for analysis'')"
    by (simp add: analyzeHistoricalData_def)
  have via: "performAnalysis d ''historical'' flt clk max_args = analyzeHistoricalData d flt clk max_args"
    for d by (simp add: performAnalysis_def)
  have other: "analyzeHistoricalData data flt clk max_args \<noteq> Inl (Error ''No data available for analysis'')"
    if "data \<noteq> []"
  proof (cases "length data \<le> max_args")
    case True
    with that show ?thesis by (simp add: analyzeHistoricalData_nonempty)
  next
    case False
    then show ?thesis by (simp add: analyzeHistoricalData_over)
  qed
  have result: "\<exists>res. analyzeHistoricalData data flt clk max_args = Inr res"
    if "data \<noteq> []" "length data \<le> max_args"
    using that by (simp add: analyzeHistoricalData_nonempty)
  show ?thesis using empty other result by (simp add: via)
qed

theorem historical_empty_raises_witness:
  "analyzeHistoricalData [] ex_filters ex_clock ex_max_args = Inl (Error ''No data available for analysis'')
   \<and> performAnalysis [] ''historical'' ex_filters ex_clock ex_max_args
       = Inl (Error ''No data available for analysis'')
   \<and> ex_data \<noteq> [] \<and> length ex_data \<le> ex_max_args
   \<and> analyzeHistoricalData ex_data ex_filters ex_clock ex_max_args
       \<noteq> Inl (Error ''No data available for analysis'')
   \<and> (\<exists>res. analyzeHistoricalData ex_data ex_filters ex_clock ex_max_args = Inr res
              \<and> performAnalysis ex_data ''historical'' ex_filters ex_clock ex_max_args = Inr res)"
proof -
  have ne: "ex_data \<noteq> []" by (simp add: ex_data_def)
  show ?thesis
    using ne ex_within_limit historical_empty_raises [of ex_filters ex_clock ex_max_args ex_data]
    by blast
qed

text \<open>
  C4. For every filter set, the combined analysis of an empty list of records raises no
  error and has the same primary, secondary and tertiary buckets as the best-practices
  analysis of an empty list with the same filters (whenever the two are run).
\<close>

theorem combined_empty_fallback:
  "\<exists>r1 r2. performAnalysis [] ''combined'' flt clk max_args = Inr r1
     \<and> performAnalysis [] ''best-practices'' flt clk' max_args = Inr r2
     \<and> analyzeCombined [] flt clk max_args = Inr r1
     \<and> primary r1 = primary r2 \<and> secondary r1 = secondary r2 \<and> tertiary r1 = tertiary r2"
  by (simp add: performAnalysis_def analyzeCombined_def analyzeBestPractices_def Let_def)

text \<open>
  C5. For every list of records and every filter set, the best-practices analysis returns
  the five buckets of the table, in the table's order: each with \<open>sampleSize = 0\<close>,
  \<open>avgOpenRate\<close> the entry's score, \<open>avgClickRate\<close> the entry's score times 0.3, and
  \<open>score\<close> the entry's score. Neither the records nor the filters occur on the right.
\<close>

theorem best_practices_fixed:
  "\<exists>res. performAnalysis data ''best-practices'' flt clk max_args = Inr res
     \<and> length (allTimeSlots res) = 5
     \<and> map bucket_view (allTimeSlots res) = map entry_view BEST_PRACTICES
     \<and> map bucket_view (allTimeSlots res) =
         [(''Tuesday'', Some 10, 0, 95, 95 * 0.3, 95),
          (''Thursday'', Some 14, 0, 90, 90 * 0.3, 90),
          (''Wednesday'', Some 9, 0, 85, 85 * 0.3, 85),
          (''Tuesday'', Some 14, 0, 82, 82 * 0.3, 82),
          (''Thursday'', Some 10, 0, 80, 80 * 0.3, 80)]"
  by (simp add: performAnalysis_def analyzeBestPractices_def Let_def BEST_PRACTICES_def
      bestPracticeSlot_def bucket_view_def entry_view_def)

text \<open>
  C6. Whenever the historical or the combined analysis succeeds, the full ranked list is
  sorted by score in non-increasing order: the score at position \<open>i\<close> is at least the
  score at every later position \<open>j\<close>.
\<close>

theorem ranked_list_sorted:
  assumes "analyzeHistoricalData data flt clk max_args = Inr res
           \<or> analyzeCombined data flt clk max_args = Inr res"
    and "i < j" and "j < length (allTimeSlots res)"
  shows "score (allTimeSlots res ! j) \<le> score (allTimeSlots res ! i)"
proof -
  have "sorted_wrt (\<lambda>a b. score b \<le> score a) (allTimeSlots res)"
  proof (cases "data = []")
    case True
    with assms(1) have "res = analyzeBestPractices clk"
      by (simp add: analyzeHistoricalData_def analyzeCombined_def)
    then show ?thesis
      using best_practice_slots_sorted by (simp add: analyzeBestPractices_def Let_def)
  next
    case False
    from assms(1) show ?thesis
    proof
      assume h: "analyzeHistoricalData data flt clk max_args = Inr res"
      have "length data \<le> max_args" using analyzeHistoricalData_returns [OF h] by simp
      with h have "allTimeSlots res = Array_sort by_score_desc (map slot_of_entry (fold group_step data []))"
        using False by (auto simp: analyzeHistoricalData_nonempty)
      then show ?thesis by (simp only: sorted_Array_sort)
    next
      assume c: "analyzeCombined data flt clk max_args = Inr res"
      have "length data \<le> max_args" using analyzeCombined_returns [OF c False] .
      with c have "\<exists>xs. allTimeSlots res = Array_sort by_score_desc xs"
        using False by (auto simp: analyzeCombined_nonempty)
      then show ?thesis using sorted_Array_sort by auto
    qed
  qed
  with assms(2,3) show ?thesis by (simp add: sorted_wrt_iff_nth_less)
qed

theorem ranked_list_sorted_witness:
  "analyzeHistoricalData ex_data ex_filters ex_clock ex_max_args = Inr (ex_historical_result ex_clock)
   \<and> (0::nat) < 1 \<and> 1 < length (allTimeSlots (ex_historical_result ex_clock))
   \<and> score (allTimeSlots (ex_historical_result ex_clock) ! 1)
       \<le> score (allTimeSlots (ex_historical_result ex_clock) ! 0)"
proof -
  have h: "analyzeHistoricalData ex_data ex_filters ex_clock ex_max_args = Inr (ex_historical_result ex_clock)
           \<or> analyzeCombined ex_data ex_filters ex_clock ex_max_args = Inr (ex_historical_result ex_clock)"
    by (simp add: ex_historical)
  have l: "1 < length (allTimeSlots (ex_historical_result ex_clock))"
    by (simp add: ex_historical_result_def)
  show ?thesis
    using ranked_list_sorted [OF h _ l, of 0] l by (simp add: ex_historical)
qed

text \<open>
  C7. For every successful analysis, primary, secondary and tertiary are the first three
  elements of the ranked list; a position the list does not have is filled with the
  bucket of \<^verbatim>\<open>createEmptyTimeSlot\<close>, whose day is "N/A" and whose rates and score are 0.
\<close>

theorem top_three_or_sentinel:
  assumes "performAnalysis data type flt clk max_args = Inr res"
  shows "primary res = (if 0 < length (allTimeSlots res) then allTimeSlots res ! 0 else createEmptyTimeSlot)
       \<and> secondary res = (if 1 < length (allTimeSlots res) then allTimeSlots res ! 1 else createEmptyTimeSlot)
       \<and> tertiary res = (if 2 < length (allTimeSlots res) then allTimeSlots res ! 2 else createEmptyTimeSlot)
       \<and> ts_dayOfWeek createEmptyTimeSlot = ''N/A''
       \<and> avgOpenRate createEmptyTimeSlot = 0 \<and> avgClickRate createEmptyTimeSlot = 0
       \<and> score createEmptyTimeSlot = 0"
proof -
  let ?tops = "\<lambda>r. primary r = slot_or_empty (allTimeSlots r) 0
                   \<and> secondary r = slot_or_empty (allTimeSlots r) 1
                   \<and> tertiary r = slot_or_empty (allTimeSlots r) 2"
  have bp: "?tops (analyzeBestPractices c)" for c
    by (simp add: analyzeBestPractices_def Let_def BEST_PRACTICES_def slot_or_empty_def)
  have hist: "?tops r" if h: "analyzeHistoricalData data flt clk max_args = Inr r" for r
  proof -
    have "data \<noteq> []" "length data \<le> max_args"
      using analyzeHistoricalData_returns [OF h] by simp_all
    moreover have "r = projr (analyzeHistoricalData data flt clk max_args)" using h by simp
    ultimately show ?thesis by (simp add: analyzeHistoricalData_nonempty)
  qed
  have comb: "?tops r" if c: "analyzeCombined data flt clk max_args = Inr r" for r
  proof (cases "data = []")
    case True
    with c have "r = analyzeBestPractices clk" by (simp add: analyzeCombined_def)
    then show ?thesis using bp by simp
  next
    case False
    have "length data \<le> max_args" using analyzeCombined_returns [OF c False] .
    moreover have "r = projr (analyzeCombined data flt clk max_args)" using c by simp
    ultimately show ?thesis using False by (simp add: analyzeCombined_nonempty)
  qed
  have "?tops res"
  proof (cases "type = ''best-practices''")
    case True
    with assms have "res = analyzeBestPractices clk" by (simp add: performAnalysis_def)
    then show ?thesis using bp by simp
  next
    case nbp: False
    show ?thesis
    proof (cases "type = ''historical''")
      case True
      with assms have "analyzeHistoricalData data flt clk max_args = Inr res"
        by (simp add: performAnalysis_def)
      then show ?thesis by (rule hist)
    next
      case nh: False
      show ?thesis
      proof (cases "type = ''combined''")
        case True
        with assms have "analyzeCombined data flt clk max_args = Inr res"
          by (simp add: performAnalysis_def)
        then show ?thesis by (rule comb)
      next
        case False
        with nbp nh assms show ?thesis by (simp add: performAnalysis_def)
      qed
    qed
  qed
  then show ?thesis by (simp add: slot_or_empty_def createEmptyTimeSlot_def)
qed

theorem top_three_or_sentinel_witness:
  "performAnalysis ex_data ''historical'' ex_filters ex_clock ex_max_args = Inr (ex_historical_result ex_clock)
   \<and> length (allTimeSlots (ex_historical_result ex_clock)) = 2
   \<and> primary (ex_historical_result ex_clock) = allTimeSlots (ex_historical_result ex_clock) ! 0
   \<and> secondary (ex_historical_result ex_clock) = allTimeSlots (ex_historical_result ex_clock) ! 1
   \<and> tertiary (ex_historical_result ex_clock) = createEmptyTimeSlot
   \<and> ts_dayOfWeek createEmptyTimeSlot = ''N/A''"
proof -
  have h: "performAnalysis ex_data ''historical'' ex_filters ex_clock ex_max_args = Inr (ex_historical_result ex_clock)"
    by (simp add: performAnalysis_def ex_historical)
  have l: "length (allTimeSlots (ex_historical_result ex_clock)) = 2"
    by (simp add: ex_historical_result_def)
  show ?thesis using top_three_or_sentinel [OF h] h l by simp
qed

text \<open>
  C8, as stated: two invocations on the same records, mode and filters yield identical
  results, all metadata included. This fails: the time stamp is read from the clock, and
  two invocations at different times differ.
\<close>

theorem repeated_analysis_counterexample:
  "performAnalysis ex_data ''historical'' ex_filters ex_clock ex_max_args
     \<noteq> performAnalysis ex_data ''historical'' ex_filters ex_clock_later ex_max_args"
  by (simp add: performAnalysis_def ex_historical ex_historical_result_def ex_clock_def ex_clock_later_def)

text \<open>
  C8, amended. Two invocations on the same records, mode and filters agree on every
  field but the ones read from the clock: always on everything except the time stamp
  and the date range, and on the date range too when it is computed from the records
  (historical mode, and combined mode on a non-empty list). When one of them raises an
  error, the other raises the same error.
\<close>

theorem repeated_analysis_up_to_clock:
  "map_sum id without_clock (performAnalysis data type flt clk max_args)
     = map_sum id without_clock (performAnalysis data type flt clk' max_args)
   \<and> (type = ''historical'' \<or> type = ''combined'' \<and> data \<noteq> [] \<longrightarrow>
        map_sum id without_timestamp (performAnalysis data type flt clk max_args)
          = map_sum id without_timestamp (performAnalysis data type flt clk' max_args))"
proof (cases "data = []")
  case True
  then show ?thesis
    by (simp add: performAnalysis_def analyzeHistoricalData_def analyzeCombined_def
        analyzeBestPractices_def without_clock_def without_timestamp_def Let_def)
next
  case False
  show ?thesis
  proof (cases "length data \<le> max_args")
    case True
    with False show ?thesis
      by (simp add: performAnalysis_def analyzeHistoricalData_nonempty analyzeCombined_nonempty
          analyzeBestPractices_def without_clock_def without_timestamp_def Let_def)
  next
    case over: False
    then have "max_args < length data" by simp
    then show ?thesis
      by (simp add: performAnalysis_def analyzeHistoricalData_over analyzeCombined_over
          analyzeBestPractices_def without_clock_def without_timestamp_def Let_def)
  qed
qed

theorem repeated_analysis_up_to_clock_witness:
  "map_sum id without_clock (performAnalysis ex_data ''historical'' ex_filters ex_clock ex_max_args)
     = map_sum id without_clock (performAnalysis ex_data ''historical'' ex_filters ex_clock_later ex_max_args)
   \<and> map_sum id without_timestamp (performAnalysis ex_data ''historical'' ex_filters ex_clock ex_max_args)
     = map_sum id without_timestamp (performAnalysis ex_data ''historical'' ex_filters ex_clock_later ex_max_args)
   \<and> map_sum id without_timestamp (performAnalysis ex_data ''historical'' ex_filters ex_clock ex_max_args)
     = Inr (without_timestamp (ex_historical_result ex_clock))"
  using repeated_analysis_up_to_clock [of ex_data "''historical''" ex_filters ex_clock ex_max_args ex_clock_later]
  by (simp add: performAnalysis_def ex_historical)

text \<open>
  C9, as stated: in every mode the metadata holds the caller's filter set. This fails in
  best-practices mode, whose function takes no filters.
\<close>

theorem filters_echo_counterexample:
  "result_filters (performAnalysis ex_data ''best-practices'' ex_filters ex_clock ex_max_args) \<noteq> Inr ex_filters"
  by (simp add: result_filters_def performAnalysis_def analyzeBestPractices_def Let_def ex_filters_def)

text \<open>
  C9, amended. In historical mode and in combined mode on a non-empty list of records,
  every returned result holds the caller's filter set in its metadata, and a result is
  returned when the list is no longer than the engine's argument limit; in
  best-practices mode, and in combined mode on an empty list, the metadata holds the
  fixed set All/All/All with no time zone.
\<close>

theorem filters_echoed_or_reset:
  "(data \<noteq> [] \<and> (type = ''historical'' \<or> type = ''combined'') \<longrightarrow>
      (\<forall>res. performAnalysis data type flt clk max_args = Inr res \<longrightarrow> filters (metadata res) = flt)
      \<and> (length data \<le> max_args \<longrightarrow>
           result_filters (performAnalysis data type flt clk max_args) = Inr flt))
   \<and> (type = ''best-practices'' \<or> type = ''combined'' \<and> data = [] \<longrightarrow>
      result_filters (performAnalysis data type flt clk max_args) = Inr all_filters)"
proof (cases "data = []")
  case True
  then show ?thesis
    by (simp add: performAnalysis_def analyzeCombined_def analyzeBestPractices_def
        result_filters_def all_filters_def Let_def)
next
  case False
  have fixed: "result_filters (performAnalysis data ''best-practices'' flt clk max_args) = Inr all_filters"
    by (simp add: performAnalysis_def analyzeBestPractices_def result_filters_def all_filters_def Let_def)
  have within: "result_filters (performAnalysis data type flt clk max_args) = Inr flt"
    if "type = ''historical'' \<or> type = ''combined''" "length data \<le> max_args"
    using that False
    by (auto simp: performAnalysis_def analyzeHistoricalData_nonempty analyzeCombined_nonempty
        result_filters_def)
  have returned: "filters (metadata res) = flt"
    if t: "type = ''historical'' \<or> type = ''combined''"
      and r: "performAnalysis data type flt clk max_args = Inr res" for res
  proof (cases "length data \<le> max_args")
    case True
    from within [OF t True] r show ?thesis by (simp add: result_filters_def)
  next
    case over: False
    then have "max_args < length data" by simp
    then have "performAnalysis data type flt clk max_args = Inl RangeError"
      using t by (auto simp: performAnalysis_def analyzeHistoricalData_over analyzeCombined_over)
    with r show ?thesis by simp
  qed
  from False fixed within returned show ?thesis by blast
qed

theorem filters_echoed_or_reset_witness:
  "ex_data \<noteq> [] \<and> length ex_data \<le> ex_max_args
   \<and> performAnalysis ex_data ''historical'' ex_filters ex_clock ex_max_args
       = Inr (ex_historical_result ex_clock)
   \<and> filters (metadata (ex_historical_result ex_clock)) = ex_filters
   \<and> result_filters (performAnalysis ex_data ''historical'' ex_filters ex_clock ex_max_args) = Inr ex_filters
   \<and> result_filters (performAnalysis ex_data ''combined'' ex_filters ex_clock ex_max_args) = Inr ex_filters
   \<and> result_filters (performAnalysis ex_data ''best-practices'' ex_filters ex_clock ex_max_args) = Inr all_filters
   \<and> result_filters (performAnalysis [] ''combined'' ex_filters ex_clock ex_max_args) = Inr all_filters"
proof -
  have ne: "ex_data \<noteq> []" by (simp add: ex_data_def)
  have h: "performAnalysis ex_data ''historical'' ex_filters ex_clock ex_max_args
           = Inr (ex_historical_result ex_clock)"
    by (simp add: performAnalysis_def ex_historical)
  show ?thesis
    using ne h ex_within_limit
      filters_echoed_or_reset [of ex_data "''historical''" ex_filters ex_clock ex_max_args]
      filters_echoed_or_reset [of ex_data "''combined''" ex_filters ex_clock ex_max_args]
      filters_echoed_or_reset [of ex_data "''best-practices''" ex_filters ex_clock ex_max_args]
      filters_echoed_or_reset [of "[]" "''combined''" ex_filters ex_clock ex_max_args]
    by simp
qed

text \<open>
  C10. For every list of records and filter set, \<^verbatim>\<open>performAnalysis\<close> with an analysis
  type that is none of the three known ones raises the error naming that type; with one
  of the three it never raises an error of that form.
\<close>

theorem unknown_analysis_type:
  "(type \<notin> set known_types \<longrightarrow>
      performAnalysis data type flt clk max_args = Inl (Error (''Unknown analysis type: '' @ type)))
   \<and> (type \<in> set known_types \<longrightarrow>
      performAnalysis data type flt clk max_args \<noteq> Inl (Error (''Unknown analysis type: '' @ t)))"
proof -
  have "analyzeHistoricalData data flt clk max_args \<noteq> Inl (Error (''Unknown analysis type: '' @ t))"
  proof (cases "data = []")
    case True
    then show ?thesis by (simp add: analyzeHistoricalData_def)
  next
    case False
    then show ?thesis
      by (cases "length data \<le> max_args")
         (simp_all add: analyzeHistoricalData_nonempty analyzeHistoricalData_over)
  qed
  moreover have "analyzeCombined data flt clk max_args \<noteq> Inl (Error (''Unknown analysis type: '' @ t))"
  proof (cases "data = []")
    case True
    then show ?thesis by (simp add: analyzeCombined_def)
  next
    case False
    then show ?thesis
      by (cases "length data \<le> max_args")
         (simp_all add: analyzeCombined_nonempty analyzeCombined_over)
  qed
  ultimately show ?thesis
    by (simp add: performAnalysis_def known_types_def)
qed

theorem unknown_analysis_type_witness:
  "''weekly'' \<notin> set known_types
   \<and> performAnalysis ex_data ''weekly'' ex_filters ex_clock ex_max_args
       = Inl (Error ''Unknown analysis type: weekly'')
   \<and> ''historical'' \<in> set known_types
   \<and> performAnalysis [] ''historical'' ex_filters ex_clock ex_max_args
       \<noteq> Inl (Error ''Unknown analysis type: historical'')"
  using unknown_analysis_type [of "''weekly''" ex_data ex_filters ex_clock ex_max_args]
    unknown_analysis_type [of "''historical''" "[]" ex_filters ex_clock ex_max_args "''historical''"]
  by (simp add: known_types_def)

end
